theory Spec2Isabelle
  imports Main "HOL-Library.Word"
begin

section \<open>Python values, strings and exceptions\<close>

text \<open>
  The values a field can hold. A Python \<open>float\<close> is an IEEE double, kept as its 64 bits;
  the code never looks inside one. \<open>PNone\<close> is also the state of a field whose value was
  never set (\<open>Type.__init__\<close> stores \<open>None\<close>). A string is the list of its characters,
  each a code point below 256.
\<close>

datatype pyval =
    PNone
  | PBool bool
  | PInt int
  | PFloat "64 word"
  | PStr string

text \<open>The text of each \<open>assert\<close> of the source, with the values it interpolates.\<close>

datatype assert_msg =
    Value_must_be_a_string string pyval
  | String_exceeds_max_length string pyval
  | String_must_be_enclosed_in_single_quotes string pyval
  | Value_must_be_an_integer string pyval
  | Incorrect_number_of_fields nat nat

text \<open>An \<open>AttributeError\<close> is raised by \<open>__getattr__\<close> for a name that is no field, or by
  Python for an attribute looked up on \<open>None\<close>.\<close>

datatype attr_msg =
    Not_found string
  | NoneType_has_no_attribute string

datatype error =
    AssertionError assert_msg
  | AttributeError attr_msg
  | IndexError
  | ValueError string

definition quote :: char where
  "quote = CHR 0x27"

text \<open>\<open>str.split(sep)\<close> with an explicit one-character separator: every occurrence cuts,
  so consecutive separators give empty pieces and the result is never empty.\<close>

fun split :: "char \<Rightarrow> string \<Rightarrow> string list" where
  "split sep [] = [[]]"
| "split sep (c # cs) =
     (if c = sep then [] # split sep cs
      else (case split sep cs of
              [] \<Rightarrow> [[c]]
            | w # ws \<Rightarrow> (c # w) # ws))"

definition startswith :: "string \<Rightarrow> string \<Rightarrow> bool" where
  "startswith s p = (take (length p) s = p)"

definition endswith :: "string \<Rightarrow> string \<Rightarrow> bool" where
  "endswith s p = (length p \<le> length s \<and> drop (length s - length p) s = p)"

text \<open>The decimal digits: the characters that \<open>int\<close> reads and \<open>str.isdecimal\<close> accepts.\<close>

definition is_decimal :: "char \<Rightarrow> bool" where
  "is_decimal c = (c \<in> set ''0123456789'')"

definition isdecimal :: "string \<Rightarrow> bool" where
  "isdecimal s = (s \<noteq> [] \<and> list_all is_decimal s)"

text \<open>
  \<open>str.isdigit()\<close>: at least one character, and every character a digit. For Python a
  digit is a decimal digit or another character of numeric type digit; below 256
  these are the superscripts two, three and one (\<open>U+00B2\<close>, \<open>U+00B3\<close>, \<open>U+00B9\<close>).
\<close>

definition is_digit :: "char \<Rightarrow> bool" where
  "is_digit c = (is_decimal c \<or> c \<in> set [CHR 0xB2, CHR 0xB3, CHR 0xB9])"

definition isdigit :: "string \<Rightarrow> bool" where
  "isdigit s = (s \<noteq> [] \<and> list_all is_digit s)"

text \<open>\<open>a in b\<close> on two strings: \<open>a\<close> occurs in \<open>b\<close> as a contiguous piece.\<close>

fun str_contains :: "string \<Rightarrow> string \<Rightarrow> bool" where
  "str_contains a [] = (a = [])"
| "str_contains a (c # cs) = (take (length a) (c # cs) = a \<or> str_contains a cs)"

subsection \<open>\<open>int(str)\<close> and \<open>str(int)\<close>\<close>

text \<open>
  \<open>int(s)\<close> in base ten: white space around the number is dropped (the blank, the
  controls \<open>0x09\<close> to \<open>0x0D\<close>, next line \<open>0x85\<close> and the no-break space \<open>0xA0\<close>), one sign
  may come first, and single underscores may stand between decimal digits. Anything
  else is a \<open>ValueError\<close>.
\<close>

definition is_space :: "char \<Rightarrow> bool" where
  "is_space c = (c \<in> set [CHR 0x20, CHR 0x09, CHR 0x0A, CHR 0x0B, CHR 0x0C, CHR 0x0D,
                            CHR 0x85, CHR 0xA0])"

definition strip :: "string \<Rightarrow> string" where
  "strip s = rev (dropWhile is_space (rev (dropWhile is_space s)))"

definition digit_val :: "char \<Rightarrow> nat" where
  "digit_val c = of_char c - 48"

fun digits_value :: "nat \<Rightarrow> string \<Rightarrow> nat option" where
  "digits_value acc [] = Some acc"
| "digits_value acc (c # cs) =
     (if is_decimal c then digits_value (10 * acc + digit_val c) cs
      else if c = CHR ''_'' \<and> cs \<noteq> [] \<and> is_decimal (hd cs) then digits_value acc cs
      else None)"

definition unsigned_value :: "string \<Rightarrow> nat option" where
  "unsigned_value u =
     (case u of
        [] \<Rightarrow> None
      | c # _ \<Rightarrow> if is_decimal c then digits_value 0 u else None)"

definition py_int :: "string \<Rightarrow> error + int" where
  "py_int s =
     (let t = strip s;
          r = (case t of
                 [] \<Rightarrow> None
               | c # u \<Rightarrow>
                   if c = CHR ''-'' then map_option (\<lambda>n. - int n) (unsigned_value u)
                   else if c = CHR ''+'' then map_option int (unsigned_value u)
                   else map_option int (unsigned_value t))
      in case r of None \<Rightarrow> Inl (ValueError s) | Some i \<Rightarrow> Inr i)"

definition digit_char :: "nat \<Rightarrow> char" where
  "digit_char d = ''0123456789'' ! d"

fun str_nat :: "nat \<Rightarrow> string" where
  "str_nat n = (if n < 10 then [digit_char n] else str_nat (n div 10) @ [digit_char (n mod 10)])"

declare str_nat.simps [simp del]

definition py_str :: "int \<Rightarrow> string" where
  "py_str i = (if i < 0 then CHR ''-'' # str_nat (nat (- i)) else str_nat (nat i))"

section \<open>Field types\<close>

text \<open>
  \<open>StringType(name, max_len)\<close> and \<open>IntType(name)\<close>, each with the value it currently
  holds. \<open>set_value\<close> stores the raw value as it is.
\<close>

datatype ftype =
    StringType string pyval int
  | IntType string pyval

fun name :: "ftype \<Rightarrow> string" where
  "name (StringType n v m) = n"
| "name (IntType n v) = n"

fun val :: "ftype \<Rightarrow> pyval" where
  "val (StringType n v m) = v"
| "val (IntType n v) = v"

fun set_value :: "ftype \<Rightarrow> pyval \<Rightarrow> ftype" where
  "set_value (StringType n v m) x = StringType n x m"
| "set_value (IntType n v) x = IntType n x"

text \<open>\<open>isinstance(v, int)\<close>: Python's \<open>bool\<close> is a subclass of \<open>int\<close>.\<close>

fun isinstance_int :: "pyval \<Rightarrow> bool" where
  "isinstance_int (PInt i) = True"
| "isinstance_int (PBool b) = True"
| "isinstance_int v = False"

text \<open>\<open>validate\<close>: the assertions in the order of the source, the first that fails raising.\<close>

fun validate :: "ftype \<Rightarrow> error + unit" where
  "validate (StringType n v m) =
     (case v of
        PStr s \<Rightarrow>
          if \<not> int (length s) \<le> m then Inl (AssertionError (String_exceeds_max_length n v))
          else if \<not> (startswith s [quote] \<and> endswith s [quote])
            then Inl (AssertionError (String_must_be_enclosed_in_single_quotes n v))
          else Inr ()
      | _ \<Rightarrow> Inl (AssertionError (Value_must_be_a_string n v)))"
| "validate (IntType n v) =
     (case v of
        PStr s \<Rightarrow>
          if isdigit s then Inr () else Inl (AssertionError (Value_must_be_an_integer n v))
      | _ \<Rightarrow>
          if isinstance_int v then Inr () else Inl (AssertionError (Value_must_be_an_integer n v)))"

section \<open>Schema\<close>

text \<open>
  The attribute \<open>fields\<close> of a schema (\<open>sfields\<close> here) is a Python dict: an association
  list in insertion order, where storing under a key that is present replaces the
  value and keeps the position. An entry is \<open>None\<close> where \<open>unpack_type\<close> returned
  nothing. \<open>attrs\<close> are the attributes of the instance other than \<open>fields\<close>.
\<close>

type_synonym fdict = "(string \<times> ftype option) list"

fun dict_set :: "'k \<Rightarrow> 'v \<Rightarrow> ('k \<times> 'v) list \<Rightarrow> ('k \<times> 'v) list" where
  "dict_set k v [] = [(k, v)]"
| "dict_set k v ((k', v') # kvs) =
     (if k' = k then (k, v) # kvs else (k', v') # dict_set k v kvs)"

record schema =
  sfields :: fdict
  attrs :: "(string \<times> pyval) list"

definition Schema :: "fdict \<Rightarrow> schema" where
  "Schema fs = \<lparr>sfields = fs, attrs = []\<rparr>"

text \<open>The loop of \<open>set_values\<close>: \<open>zip\<close> stops at the shorter of the two sequences. Calling
  \<open>set_value\<close> on an entry that is \<open>None\<close> raises.\<close>

fun assign :: "fdict \<Rightarrow> pyval list \<Rightarrow> error + fdict" where
  "assign [] values = Inr []"
| "assign ((k, v) # kvs) [] = Inr ((k, v) # kvs)"
| "assign ((k, v) # kvs) (x # xs) =
     (case v of
        None \<Rightarrow> Inl (AttributeError (NoneType_has_no_attribute ''set_value''))
      | Some f \<Rightarrow>
          (case assign kvs xs of
             Inl e \<Rightarrow> Inl e
           | Inr kvs' \<Rightarrow> Inr ((k, Some (set_value f x)) # kvs')))"

fun validate_fields :: "fdict \<Rightarrow> error + unit" where
  "validate_fields [] = Inr ()"
| "validate_fields ((k, v) # kvs) =
     (case v of
        None \<Rightarrow> Inl (AttributeError (NoneType_has_no_attribute ''validate''))
      | Some f \<Rightarrow>
          (case validate f of
             Inl e \<Rightarrow> Inl e
           | Inr u \<Rightarrow> validate_fields kvs))"

definition schema_validate :: "schema \<Rightarrow> error + unit" where
  "schema_validate sch = validate_fields (sfields sch)"

definition build :: "schema \<Rightarrow> error + schema" where
  "build sch = (case schema_validate sch of Inl e \<Rightarrow> Inl e | Inr u \<Rightarrow> Inr sch)"

text \<open>\<open>set_values\<close>: \<open>if values:\<close> skips both the assignment and the validation for an
  empty list.\<close>

definition set_values :: "schema \<Rightarrow> pyval list \<Rightarrow> error + schema" where
  "set_values sch values =
     (if values \<noteq> [] then
        (case assign (sfields sch) values of
           Inl e \<Rightarrow> Inl e
         | Inr fs \<Rightarrow> build (sch\<lparr>sfields := fs\<rparr>))
      else Inr sch)"

definition fieldlen :: "schema \<Rightarrow> nat" where
  "fieldlen sch = length (sfields sch)"

text \<open>\<open>__getattr__\<close>, which Python calls for a name that ordinary lookup does not find.\<close>

definition schema_getattr :: "schema \<Rightarrow> string \<Rightarrow> error + pyval" where
  "schema_getattr sch key =
     (case map_of (sfields sch) key of
        Some (Some f) \<Rightarrow> Inr (val f)
      | Some None \<Rightarrow> Inl (AttributeError (NoneType_has_no_attribute ''value''))
      | None \<Rightarrow> Inl (AttributeError (Not_found key)))"

text \<open>
  \<open>__setattr__\<close>. The first test is \<open>key in ("fields")\<close>, and \<open>("fields")\<close> is the string
  itself, so the test holds for every piece of that word. \<open>super().__setattr__\<close> binds
  the attribute on the instance; bound to the name \<open>fields\<close>, the value takes the place
  of the dict (\<open>Fields_rebound\<close>).
\<close>

datatype setattr_result =
    Updated schema
  | Fields_rebound pyval

definition object_setattr :: "schema \<Rightarrow> string \<Rightarrow> pyval \<Rightarrow> setattr_result" where
  "object_setattr sch key v =
     (if key = ''fields'' then Fields_rebound v
      else Updated (sch\<lparr>attrs := dict_set key v (attrs sch)\<rparr>))"

definition schema_setattr :: "schema \<Rightarrow> string \<Rightarrow> pyval \<Rightarrow> error + setattr_result" where
  "schema_setattr sch key v =
     (if str_contains key ''fields'' then Inr (object_setattr sch key v)
      else (case map_of (sfields sch) key of
              Some (Some f) \<Rightarrow>
                Inr (Updated (sch\<lparr>sfields := dict_set key (Some (set_value f v)) (sfields sch)\<rparr>))
            | Some None \<Rightarrow> Inl (AttributeError (NoneType_has_no_attribute ''set_value''))
            | None \<Rightarrow> Inr (object_setattr sch key v)))"

section \<open>Datastore\<close>

record datastore =
  store :: "schema list"

definition Datastore :: datastore where
  "Datastore = \<lparr>store = []\<rparr>"

definition save :: "datastore \<Rightarrow> schema \<Rightarrow> (int \<times> schema) \<times> datastore" where
  "save ds d =
     (let ds' = ds\<lparr>store := store ds @ [d]\<rparr>
      in ((int (length (store ds')) - 1, d), ds'))"

text \<open>Indexing a Python list: a negative index counts from the end, and an index outside
  \<open>-len .. len - 1\<close> raises.\<close>

definition list_getitem :: "'a list \<Rightarrow> int \<Rightarrow> error + 'a" where
  "list_getitem xs i =
     (let n = int (length xs); j = (if i < 0 then i + n else i)
      in if 0 \<le> j \<and> j < n then Inr (xs ! nat j) else Inl IndexError)"

definition load :: "datastore \<Rightarrow> int \<Rightarrow> error + schema option" where
  "load ds index =
     (if index > int (length (store ds)) - 1 then Inr None
      else (case list_getitem (store ds) index of
              Inl e \<Rightarrow> Inl e
            | Inr d \<Rightarrow> Inr (Some d)))"

definition clear :: "datastore \<Rightarrow> datastore" where
  "clear ds = ds\<lparr>store := []\<rparr>"

section \<open>Deserializer\<close>

definition deserialize :: "schema \<Rightarrow> string \<Rightarrow> error + schema" where
  "deserialize sch data =
     (let values = split CHR '' '' data
      in if length values \<noteq> fieldlen sch
         then Inl (AssertionError (Incorrect_number_of_fields (fieldlen sch) (length values)))
         else set_values sch (map PStr values))"

section \<open>Program\<close>

record program =
  datastore :: datastore
  current_schema :: "string option"

definition Program :: program where
  "Program = \<lparr>datastore = Datastore, current_schema = None\<rparr>"

datatype kind = KString | KInt

definition key2type :: "string \<Rightarrow> kind option" where
  "key2type key =
     (if key = ''string'' then Some KString
      else if key = ''int'' then Some KInt
      else None)"

text \<open>\<open>details[i]\<close> on the list of a spec's pieces.\<close>

definition item :: "'a list \<Rightarrow> nat \<Rightarrow> error + 'a" where
  "item xs i = (if i < length xs then Inr (xs ! i) else Inl IndexError)"

definition unpack_type :: "string list \<Rightarrow> error + ftype option" where
  "unpack_type details =
     (case item details 0 of
        Inl e \<Rightarrow> Inl e
      | Inr fieldname \<Rightarrow>
         (case item details 1 of
            Inl e \<Rightarrow> Inl e
          | Inr key \<Rightarrow>
             (case key2type key of
                Some KString \<Rightarrow>
                  (case item details 2 of
                     Inl e \<Rightarrow> Inl e
                   | Inr p \<Rightarrow>
                      (case py_int p of
                         Inl e \<Rightarrow> Inl e
                       | Inr m \<Rightarrow> Inr (Some (StringType fieldname PNone m))))
              | Some KInt \<Rightarrow> Inr (Some (IntType fieldname PNone))
              | None \<Rightarrow> Inr None)))"

definition set_schema :: "program \<Rightarrow> string \<Rightarrow> program" where
  "set_schema p schema_template =
     (let p' = p\<lparr>current_schema := Some schema_template\<rparr>
      in p'\<lparr>datastore := clear (datastore p')\<rparr>)"

text \<open>The loop of \<open>create_schema_instance\<close> over the specs, \<open>fs\<close> the dict built so far.\<close>

fun add_fields :: "string list \<Rightarrow> fdict \<Rightarrow> error + fdict" where
  "add_fields [] fs = Inr fs"
| "add_fields (t # ts) fs =
     (let type_props = split CHR ''|'' t
      in case item type_props 0 of
           Inl e \<Rightarrow> Inl e
         | Inr fieldname \<Rightarrow>
            (case unpack_type type_props of
               Inl e \<Rightarrow> Inl e
             | Inr typz \<Rightarrow> add_fields ts (dict_set fieldname typz fs)))"

definition create_schema_instance :: "string \<Rightarrow> error + schema" where
  "create_schema_instance schema_template =
     (case add_fields (split CHR '' '' schema_template) [] of
        Inl e \<Rightarrow> Inl e
      | Inr fs \<Rightarrow> Inr (Schema fs))"

text \<open>
  A method of \<open>Program\<close> returns what it printed and its value, or the exception it
  raised, together with the program as it left it. \<open>add\<close> changes the program in its
  last statement only.
\<close>

definition add :: "program \<Rightarrow> string \<Rightarrow> (error + string list \<times> (int \<times> schema) option) \<times> program" where
  "add p data =
     (if current_schema p = None \<or> current_schema p = Some []
      then (Inr ([''No schema defined''], None), p)
      else (case create_schema_instance (the (current_schema p)) of
              Inl e \<Rightarrow> (Inl e, p)
            | Inr schema_instance \<Rightarrow>
               (case deserialize schema_instance data of
                  Inl e \<Rightarrow> (Inl e, p)
                | Inr record \<Rightarrow>
                   (let (r, ds) = save (datastore p) record
                    in (Inr ([], Some r), p\<lparr>datastore := ds\<rparr>)))))"

definition get :: "program \<Rightarrow> string \<Rightarrow> error + schema option" where
  "get p index =
     (case py_int index of
        Inl e \<Rightarrow> Inl e
      | Inr i \<Rightarrow> load (datastore p) i)"

subsection \<open>Command sequences\<close>

text \<open>
  The three commands of the program. The loop of \<open>run\<close> prints what a command returns
  and, where it raises, prints the exception and goes on with the program as the
  command left it.
\<close>

datatype command = Set_schema string | Add string | Get string

datatype response =
    Raised error
  | Set_done
  | Added "string list" "(int \<times> schema) option"
  | Got "schema option"

fun exec :: "program \<Rightarrow> command \<Rightarrow> response \<times> program" where
  "exec p (Set_schema t) = (Set_done, set_schema p t)"
| "exec p (Add d) =
     (case add p d of
        (Inl e, p') \<Rightarrow> (Raised e, p')
      | (Inr (out, r), p') \<Rightarrow> (Added out r, p'))"
| "exec p (Get i) =
     (case get p i of
        Inl e \<Rightarrow> (Raised e, p)
      | Inr r \<Rightarrow> (Got r, p))"

fun run :: "program \<Rightarrow> command list \<Rightarrow> response list \<times> program" where
  "run p [] = ([], p)"
| "run p (c # cs) =
     (let (r, p') = exec p c; (rs, p'') = run p' cs in (r # rs, p''))"

section \<open>Templates, specs and answers\<close>

text \<open>
  The words of the schema template grammar: a valid field spec is \<open>name|int\<close> or
  \<open>name|string|param\<close> with \<open>param\<close> a string of decimal digits; a spec of unknown kind has a
  kind keyword that is neither \<open>string\<close> nor \<open>int\<close>. \<open>field_name\<close> is the name a spec
  declares.
\<close>

definition valid_spec :: "string \<Rightarrow> bool" where
  "valid_spec t =
     (case split CHR ''|'' t of
        [n, k] \<Rightarrow> k = ''int''
      | [n, k, p] \<Rightarrow> k = ''string'' \<and> isdecimal p
      | _ \<Rightarrow> False)"

definition unknown_kind :: "string \<Rightarrow> bool" where
  "unknown_kind t =
     (case split CHR ''|'' t of
        n # k # ps \<Rightarrow> k \<noteq> ''string'' \<and> k \<noteq> ''int''
      | _ \<Rightarrow> False)"

definition field_name :: "string \<Rightarrow> string" where
  "field_name t = hd (split CHR ''|'' t)"

text \<open>The index and record of every \<open>add\<close> that stored one, in the order of the answers.\<close>

fun saved :: "response list \<Rightarrow> (int \<times> schema) list" where
  "saved [] = []"
| "saved (Added out (Some r) # rs) = r # saved rs"
| "saved (x # rs) = saved rs"

section \<open>Validation of a single field\<close>

lemma startswith_quote: "startswith s [quote] = (s \<noteq> [] \<and> hd s = quote)"
  by (cases s) (auto simp: startswith_def)

lemma endswith_quote: "endswith s [quote] = (s \<noteq> [] \<and> last s = quote)"
proof (cases s rule: rev_cases)
  case Nil
  then show ?thesis by (simp add: endswith_def)
next
  case (snoc ys y)
  then show ?thesis by (auto simp: endswith_def)
qed

text \<open>
  Claim C2. A string field validates exactly when its value is a string, the length of
  the whole string (quote characters counted) is at most \<open>max_len\<close>, and the string
  begins and ends with a single-quote character. \<open>set_value\<close> stores the value as
  given, quotes included.
\<close>

theorem C2_string_validate:
  "(validate (StringType n v m) = Inr ()) =
     (\<exists>s. v = PStr s \<and> int (length s) \<le> m \<and> s \<noteq> [] \<and> hd s = quote \<and> last s = quote)
   \<and> val (set_value (StringType n v0 m) v) = v"
  by (cases v) (auto simp: startswith_quote endswith_quote)

theorem C2_string_validate_witness:
  "validate (StringType ''firstname'' (PStr ([quote] @ ''John'' @ [quote])) 255) = Inr ()
   \<and> validate (StringType ''firstname'' (PStr ([quote] @ ''John'' @ [quote])) 5) \<noteq> Inr ()
   \<and> validate (StringType ''firstname'' (PStr ''John'') 255) \<noteq> Inr ()
   \<and> validate (StringType ''firstname'' (PInt 7) 255) \<noteq> Inr ()
   \<and> val (set_value (StringType ''firstname'' PNone 255) (PStr ([quote] @ ''John'' @ [quote])))
       = PStr ([quote] @ ''John'' @ [quote])"
  using C2_string_validate [of "''firstname''" "PStr ([quote] @ ''John'' @ [quote])" 255 PNone]
    C2_string_validate [of "''firstname''" "PStr ([quote] @ ''John'' @ [quote])" 5 PNone]
    C2_string_validate [of "''firstname''" "PStr ''John''" 255 PNone]
    C2_string_validate [of "''firstname''" "PInt 7" 255 PNone]
  by (simp add: quote_def)





section \<open>The datastore and the schema template\<close>

lemma py_int_0: "py_int ''0'' = Inr 0"
  by (simp add: py_int_def strip_def is_space_def unsigned_value_def is_decimal_def digit_val_def)

lemma py_int_99: "py_int ''99'' = Inr 99"
  by (simp add: py_int_def strip_def is_space_def unsigned_value_def is_decimal_def digit_val_def)

lemma set_schema_clears:
  "current_schema (set_schema p t) = Some t \<and> store (datastore (set_schema p t)) = []"
  by (simp add: set_schema_def clear_def)

lemma load_empty: "store ds = [] \<Longrightarrow> 0 \<le> i \<Longrightarrow> load ds i = Inr None"
  by (simp add: load_def)

text \<open>
  Claim C7. \<open>set-schema\<close> stores the template it is given, unchanged, as the current
  schema and empties the datastore. So after \<open>set-schema S1\<close>, \<open>add d1\<close> (whatever it
  answers), \<open>set-schema S2\<close>, the command \<open>get 0\<close> answers not found (\<open>None\<close>).
\<close>

theorem C7_set_schema_clears:
  "current_schema (set_schema p S) = Some S
   \<and> store (datastore (set_schema p S)) = []
   \<and> (\<exists>r. fst (run p [Set_schema S1, Add d1, Set_schema S2, Get ''0''])
            = [Set_done, r, Set_done, Got None])"
proof -
  have "get (set_schema q S2) ''0'' = Inr None" for q
    by (simp add: get_def py_int_0 load_empty set_schema_clears)
  then show ?thesis
    by (simp add: set_schema_clears split: prod.split sum.split)
qed

theorem C7_set_schema_clears_witness:
  "current_schema (set_schema Program ''age|int'') = Some ''age|int''
   \<and> store (datastore (set_schema Program ''age|int'')) = []
   \<and> (\<exists>r. fst (run Program [Set_schema ''age|int'', Add ''30'', Set_schema ''n|int'', Get ''0''])
            = [Set_done, r, Set_done, Got None])"
  using C7_set_schema_clears [of Program "''age|int''" "''age|int''" "''30''" "''n|int''"]
  by simp

text \<open>
  Claim C8. \<open>load\<close> tests the upper bound only. An index at or beyond the length of
  the store gives the not-found value \<open>None\<close>. Any other index goes to the list: from
  \<open>0\<close> it reads that position, from \<open>-len\<close> to \<open>-1\<close> it reads from the end, and below
  \<open>-len\<close> the list raises \<open>IndexError\<close>. \<open>get 99\<close> on an empty store answers \<open>None\<close>.
\<close>

theorem C8_load:
  "(int (length (store ds)) \<le> i \<longrightarrow> load ds i = Inr None)
   \<and> (0 \<le> i \<and> i < int (length (store ds)) \<longrightarrow> load ds i = Inr (Some (store ds ! nat i)))
   \<and> (- int (length (store ds)) \<le> i \<and> i < 0 \<longrightarrow>
        load ds i = Inr (Some (store ds ! nat (i + int (length (store ds))))))
   \<and> (i < - int (length (store ds)) \<longrightarrow> load ds i = Inl IndexError)
   \<and> (store (datastore p) = [] \<longrightarrow> get p ''99'' = Inr None)"
  by (simp add: load_def list_getitem_def get_def py_int_99)

theorem C8_load_witness:
  "load \<lparr>store = [Schema [], Schema [(''a'', None)]]\<rparr> 2 = Inr None
   \<and> load \<lparr>store = [Schema [], Schema [(''a'', None)]]\<rparr> 0 = Inr (Some (Schema []))
   \<and> load \<lparr>store = [Schema [], Schema [(''a'', None)]]\<rparr> (- 1) = Inr (Some (Schema [(''a'', None)]))
   \<and> load \<lparr>store = [Schema [], Schema [(''a'', None)]]\<rparr> (- 3) = Inl IndexError
   \<and> get Program ''99'' = Inr None"
  using C8_load [of "\<lparr>store = [Schema [], Schema [(''a'', None)]]\<rparr>" 2 Program]
    C8_load [of "\<lparr>store = [Schema [], Schema [(''a'', None)]]\<rparr>" 0 Program]
    C8_load [of "\<lparr>store = [Schema [], Schema [(''a'', None)]]\<rparr>" "- 1" Program]
    C8_load [of "\<lparr>store = [Schema [], Schema [(''a'', None)]]\<rparr>" "- 3" Program]
  by (simp add: Program_def Datastore_def)

text \<open>
  Claim C10. When the current schema is unset or is the empty string, \<open>add\<close> prints
  \<open>No schema defined\<close>, returns \<open>None\<close> and leaves the program as it was; no schema is
  built (building one from the empty template would raise). The state after
  \<open>set-schema\<close> with an empty template is such a state.
\<close>

theorem C10_add_without_schema:
  "(current_schema p = None \<or> current_schema p = Some [] \<longrightarrow>
      add p d = (Inr ([''No schema defined''], None), p))
   \<and> add (set_schema p []) d = (Inr ([''No schema defined''], None), set_schema p [])
   \<and> create_schema_instance [] = Inl IndexError"
  by (auto simp: add_def set_schema_clears create_schema_instance_def unpack_type_def item_def)

theorem C10_add_without_schema_witness:
  "add Program ''30'' = (Inr ([''No schema defined''], None), Program)
   \<and> add (set_schema Program []) ''30'' = (Inr ([''No schema defined''], None), set_schema Program [])"
  using C10_add_without_schema [of Program "''30''"]
  by (simp add: Program_def)

section \<open>Assigning and validating the values of a schema\<close>

lemma assign_typed:
  "\<forall>kv \<in> set fs. snd kv \<noteq> None \<Longrightarrow>
   assign fs vs =
     Inr (map (\<lambda>((k, v), x). (k, map_option (\<lambda>f. set_value f x) v)) (zip fs vs)
          @ drop (length vs) fs)"
  by (induction fs vs rule: assign.induct) auto

lemma assign_keeps_typed:
  "\<forall>kv \<in> set fs. snd kv \<noteq> None \<Longrightarrow> assign fs vs = Inr fs' \<Longrightarrow>
   \<forall>kv \<in> set fs'. snd kv \<noteq> None"
proof (induction fs vs arbitrary: fs' rule: assign.induct)
  case (3 k v kvs x xs)
  then obtain f where v: "v = Some f" by auto
  with 3 obtain kvs' where k: "assign kvs xs = Inr kvs'" "fs' = (k, Some (set_value f x)) # kvs'"
    by (auto split: sum.splits)
  with 3 v have "\<forall>kv \<in> set kvs'. snd kv \<noteq> None" by simp
  with k show ?case by simp
qed auto

lemma validate_fields_ok:
  "(validate_fields fs = Inr ()) = (\<forall>kv \<in> set fs. \<exists>f. snd kv = Some f \<and> validate f = Inr ())"
  by (induction fs rule: validate_fields.induct) (auto split: option.splits sum.splits)

lemma validate_fields_first:
  "\<forall>kv \<in> set fs. snd kv \<noteq> None \<Longrightarrow> validate_fields fs = Inl e \<Longrightarrow>
   \<exists>pre k f post. fs = pre @ (k, Some f) # post
      \<and> (\<forall>kv \<in> set pre. \<exists>g. snd kv = Some g \<and> validate g = Inr ())
      \<and> validate f = Inl e"
proof (induction fs rule: validate_fields.induct)
  case 1
  then show ?case by simp
next
  case (2 k v kvs)
  then obtain f where v: "v = Some f" by auto
  show ?case
  proof (cases "validate f")
    case (Inl e')
    with 2 v have "validate f = Inl e" by simp
    then show ?thesis using v
      by (intro exI [of _ "[]"] exI [of _ k] exI [of _ f] exI [of _ kvs]) simp
  next
    case (Inr u)
    with 2 v obtain pre k' g post where
      h: "kvs = pre @ (k', Some g) # post"
         "\<forall>kv \<in> set pre. \<exists>g. snd kv = Some g \<and> validate g = Inr ()"
         "validate g = Inl e"
      by auto
    from h Inr v show ?thesis
      by (intro exI [of _ "(k, v) # pre"] exI [of _ k'] exI [of _ g] exI [of _ post]) simp
  qed
qed

lemma validate_reports:
  "validate f = Inl e \<Longrightarrow>
   e \<in> AssertionError ` {Value_must_be_a_string (name f) (val f),
                          String_exceeds_max_length (name f) (val f),
                          String_must_be_enclosed_in_single_quotes (name f) (val f),
                          Value_must_be_an_integer (name f) (val f)}"
  by (cases f) (auto split: pyval.splits if_splits)

lemma set_values_nonempty:
  assumes "\<forall>kv \<in> set (sfields sch). snd kv \<noteq> None" and "vs \<noteq> []"
    and "fs' = map (\<lambda>((k, v), x). (k, map_option (\<lambda>f. set_value f x) v)) (zip (sfields sch) vs)
               @ drop (length vs) (sfields sch)"
  shows "assign (sfields sch) vs = Inr fs'
     \<and> ((\<forall>kv \<in> set fs'. \<exists>f. snd kv = Some f \<and> validate f = Inr ())
          \<longrightarrow> set_values sch vs = Inr (sch\<lparr>sfields := fs'\<rparr>))
     \<and> (\<not> (\<forall>kv \<in> set fs'. \<exists>f. snd kv = Some f \<and> validate f = Inr ())
          \<longrightarrow> (\<exists>pre k f post e. fs' = pre @ (k, Some f) # post
                \<and> (\<forall>kv \<in> set pre. \<exists>g. snd kv = Some g \<and> validate g = Inr ())
                \<and> validate f = Inl e
                \<and> e \<in> AssertionError ` {Value_must_be_a_string (name f) (val f),
                          String_exceeds_max_length (name f) (val f),
                          String_must_be_enclosed_in_single_quotes (name f) (val f),
                          Value_must_be_an_integer (name f) (val f)}
                \<and> set_values sch vs = Inl e))"
proof (intro conjI)
  show a: "assign (sfields sch) vs = Inr fs'"
    unfolding assms(3) using assms(1) by (rule assign_typed)
  have t: "\<forall>kv \<in> set fs'. snd kv \<noteq> None"
    using assign_keeps_typed [OF assms(1) a] .
  have sv: "set_values sch vs =
      (case validate_fields fs' of Inl e \<Rightarrow> Inl e | Inr u \<Rightarrow> Inr (sch\<lparr>sfields := fs'\<rparr>))"
    using assms(2) a by (simp add: set_values_def build_def schema_validate_def)
  show "(\<forall>kv \<in> set fs'. \<exists>f. snd kv = Some f \<and> validate f = Inr ())
          \<longrightarrow> set_values sch vs = Inr (sch\<lparr>sfields := fs'\<rparr>)"
  proof
    assume "\<forall>kv \<in> set fs'. \<exists>f. snd kv = Some f \<and> validate f = Inr ()"
    with validate_fields_ok [of fs'] have "validate_fields fs' = Inr ()" by blast
    with sv show "set_values sch vs = Inr (sch\<lparr>sfields := fs'\<rparr>)" by simp
  qed
  show "\<not> (\<forall>kv \<in> set fs'. \<exists>f. snd kv = Some f \<and> validate f = Inr ())
          \<longrightarrow> (\<exists>pre k f post e. fs' = pre @ (k, Some f) # post
                \<and> (\<forall>kv \<in> set pre. \<exists>g. snd kv = Some g \<and> validate g = Inr ())
                \<and> validate f = Inl e
                \<and> e \<in> AssertionError ` {Value_must_be_a_string (name f) (val f),
                          String_exceeds_max_length (name f) (val f),
                          String_must_be_enclosed_in_single_quotes (name f) (val f),
                          Value_must_be_an_integer (name f) (val f)}
                \<and> set_values sch vs = Inl e)"
  proof
    assume n: "\<not> (\<forall>kv \<in> set fs'. \<exists>f. snd kv = Some f \<and> validate f = Inr ())"
    from n validate_fields_ok [of fs'] have "validate_fields fs' \<noteq> Inr ()" by blast
    then obtain e where e: "validate_fields fs' = Inl e" by (cases "validate_fields fs'") auto
    from validate_fields_first [OF t e] obtain pre k f post where
      h: "fs' = pre @ (k, Some f) # post"
         "\<forall>kv \<in> set pre. \<exists>g. snd kv = Some g \<and> validate g = Inr ()"
         "validate f = Inl e" by blast
    from sv e have s: "set_values sch vs = Inl e" by simp
    show "\<exists>pre k f post e. fs' = pre @ (k, Some f) # post
                \<and> (\<forall>kv \<in> set pre. \<exists>g. snd kv = Some g \<and> validate g = Inr ())
                \<and> validate f = Inl e
                \<and> e \<in> AssertionError ` {Value_must_be_a_string (name f) (val f),
                          String_exceeds_max_length (name f) (val f),
                          String_must_be_enclosed_in_single_quotes (name f) (val f),
                          Value_must_be_an_integer (name f) (val f)}
                \<and> set_values sch vs = Inl e"
      using h s validate_reports [OF h(3)]
      by (intro exI [of _ pre] exI [of _ k] exI [of _ f] exI [of _ post] exI [of _ e] conjI)
  qed
qed

lemma set_values_empty: "set_values sch [] = Inr sch"
  by (simp add: set_values_def)

text \<open>
  Claim C5, as the code has it. For the empty list \<open>set_values\<close> does nothing, whatever
  the schema: it returns the schema as it was, with no field assigned and none
  validated. Take now a schema in which every declared field has a field type, and
  a list of raw values that is not empty. \<open>set_values\<close> pairs the fields, in
  declaration order, with the values: a paired field receives its value through
  \<open>set_value\<close>, values beyond the last field are dropped, and fields beyond the last
  value keep what they held (\<open>fs'\<close> below). Then every field is validated in
  declaration order. If all pass, the schema with the assigned fields is returned;
  otherwise the call fails with the assertion of the first field that fails, which
  carries that field's name and value.
\<close>

theorem C5_set_values:
  "set_values sch [] = Inr sch
   \<and> ((\<forall>kv \<in> set (sfields sch). snd kv \<noteq> None) \<and> vs \<noteq> []
       \<and> fs' = map (\<lambda>((k, v), x). (k, map_option (\<lambda>f. set_value f x) v)) (zip (sfields sch) vs)
                 @ drop (length vs) (sfields sch)
      \<longrightarrow> assign (sfields sch) vs = Inr fs'
        \<and> ((\<forall>kv \<in> set fs'. \<exists>f. snd kv = Some f \<and> validate f = Inr ())
              \<longrightarrow> set_values sch vs = Inr (sch\<lparr>sfields := fs'\<rparr>))
        \<and> (\<not> (\<forall>kv \<in> set fs'. \<exists>f. snd kv = Some f \<and> validate f = Inr ())
              \<longrightarrow> (\<exists>pre k f post e. fs' = pre @ (k, Some f) # post
                    \<and> (\<forall>kv \<in> set pre. \<exists>g. snd kv = Some g \<and> validate g = Inr ())
                    \<and> validate f = Inl e
                    \<and> e \<in> AssertionError ` {Value_must_be_a_string (name f) (val f),
                              String_exceeds_max_length (name f) (val f),
                              String_must_be_enclosed_in_single_quotes (name f) (val f),
                              Value_must_be_an_integer (name f) (val f)}
                    \<and> set_values sch vs = Inl e)))"
proof (rule conjI [OF set_values_empty], rule impI)
  assume "(\<forall>kv \<in> set (sfields sch). snd kv \<noteq> None) \<and> vs \<noteq> []
       \<and> fs' = map (\<lambda>((k, v), x). (k, map_option (\<lambda>f. set_value f x) v)) (zip (sfields sch) vs)
                 @ drop (length vs) (sfields sch)"
  then have "\<forall>kv \<in> set (sfields sch). snd kv \<noteq> None" and "vs \<noteq> []"
    and "fs' = map (\<lambda>((k, v), x). (k, map_option (\<lambda>f. set_value f x) v)) (zip (sfields sch) vs)
                 @ drop (length vs) (sfields sch)"
    by simp_all
  then show "assign (sfields sch) vs = Inr fs'
        \<and> ((\<forall>kv \<in> set fs'. \<exists>f. snd kv = Some f \<and> validate f = Inr ())
              \<longrightarrow> set_values sch vs = Inr (sch\<lparr>sfields := fs'\<rparr>))
        \<and> (\<not> (\<forall>kv \<in> set fs'. \<exists>f. snd kv = Some f \<and> validate f = Inr ())
              \<longrightarrow> (\<exists>pre k f post e. fs' = pre @ (k, Some f) # post
                    \<and> (\<forall>kv \<in> set pre. \<exists>g. snd kv = Some g \<and> validate g = Inr ())
                    \<and> validate f = Inl e
                    \<and> e \<in> AssertionError ` {Value_must_be_a_string (name f) (val f),
                              String_exceeds_max_length (name f) (val f),
                              String_must_be_enclosed_in_single_quotes (name f) (val f),
                              Value_must_be_an_integer (name f) (val f)}
                    \<and> set_values sch vs = Inl e))"
    by (rule set_values_nonempty)
qed

theorem C5_set_values_witness:
  "set_values (Schema [(''age'', Some (IntType ''age'' PNone))]) []
     = Inr (Schema [(''age'', Some (IntType ''age'' PNone))])
   \<and> set_values (Schema [(''age'', Some (IntType ''age'' PNone))]) [PStr ''x'']
     = Inl (AssertionError (Value_must_be_an_integer ''age'' (PStr ''x'')))
   \<and> set_values (Schema [(''age'', Some (IntType ''age'' PNone)),
                          (''nick'', Some (StringType ''nick'' PNone 9))])
                [PStr ''30'', PStr [quote, CHR ''a'', quote], PStr ''32'']
     = Inr (Schema [(''age'', Some (IntType ''age'' (PStr ''30''))),
                    (''nick'', Some (StringType ''nick'' (PStr [quote, CHR ''a'', quote]) 9))])"
proof (intro conjI)
  show "set_values (Schema [(''age'', Some (IntType ''age'' PNone))]) []
     = Inr (Schema [(''age'', Some (IntType ''age'' PNone))])"
    by (rule C5_set_values [THEN conjunct1])
next
  let ?s = "Schema [(''age'', Some (IntType ''age'' PNone))]"
  let ?fs = "[(''age'', Some (IntType ''age'' (PStr ''x'')))]"
  have t: "\<forall>kv \<in> set (sfields ?s). snd kv \<noteq> None" and n: "[PStr ''x''] \<noteq> []"
    and f: "?fs = map (\<lambda>((k, v), x). (k, map_option (\<lambda>f. set_value f x) v))
                (zip (sfields ?s) [PStr ''x'']) @ drop (length [PStr ''x'']) (sfields ?s)"
    by (simp_all add: Schema_def)
  have nf: "\<not> (\<forall>kv \<in> set ?fs. \<exists>f. snd kv = Some f \<and> validate f = Inr ())"
    by (simp add: isdecimal_def is_decimal_def isdigit_def is_digit_def)
  from C5_set_values [THEN conjunct2, THEN mp, OF conjI [OF t conjI [OF n f]]]
  have "\<not> (\<forall>kv \<in> set ?fs. \<exists>f. snd kv = Some f \<and> validate f = Inr ()) \<longrightarrow>
    (\<exists>pre k f post e. ?fs = pre @ (k, Some f) # post
       \<and> (\<forall>kv \<in> set pre. \<exists>g. snd kv = Some g \<and> validate g = Inr ())
       \<and> validate f = Inl e
       \<and> e \<in> AssertionError ` {Value_must_be_a_string (name f) (val f),
                          String_exceeds_max_length (name f) (val f),
                          String_must_be_enclosed_in_single_quotes (name f) (val f),
                          Value_must_be_an_integer (name f) (val f)}
       \<and> set_values ?s [PStr ''x''] = Inl e)"
    by (elim conjE)
  from this nf
  have "\<exists>pre k f post e. ?fs = pre @ (k, Some f) # post
       \<and> (\<forall>kv \<in> set pre. \<exists>g. snd kv = Some g \<and> validate g = Inr ())
       \<and> validate f = Inl e
       \<and> e \<in> AssertionError ` {Value_must_be_a_string (name f) (val f),
                          String_exceeds_max_length (name f) (val f),
                          String_must_be_enclosed_in_single_quotes (name f) (val f),
                          Value_must_be_an_integer (name f) (val f)}
       \<and> set_values ?s [PStr ''x''] = Inl e"
    by (rule mp)
  then obtain pre k f post e where
    h: "?fs = pre @ (k, Some f) # post" "validate f = Inl e"
       "set_values ?s [PStr ''x''] = Inl e"
    by (elim exE conjE) (rule that)
  from h(1) have "f = IntType ''age'' (PStr ''x'')"
    by (cases pre) auto
  with h(2) have "e = AssertionError (Value_must_be_an_integer ''age'' (PStr ''x''))"
    by (simp add: isdecimal_def is_decimal_def isdigit_def is_digit_def)
  with h(3) show "set_values ?s [PStr ''x'']
     = Inl (AssertionError (Value_must_be_an_integer ''age'' (PStr ''x'')))"
    by simp
next
  let ?s = "Schema [(''age'', Some (IntType ''age'' PNone)),
                    (''nick'', Some (StringType ''nick'' PNone 9))]"
  let ?vs = "[PStr ''30'', PStr [quote, CHR ''a'', quote], PStr ''32'']"
  let ?fs = "[(''age'', Some (IntType ''age'' (PStr ''30''))),
              (''nick'', Some (StringType ''nick'' (PStr [quote, CHR ''a'', quote]) 9))]"
  have t: "\<forall>kv \<in> set (sfields ?s). snd kv \<noteq> None" and n: "?vs \<noteq> []"
    and f: "?fs = map (\<lambda>((k, v), x). (k, map_option (\<lambda>f. set_value f x) v))
                (zip (sfields ?s) ?vs) @ drop (length ?vs) (sfields ?s)"
    by (simp_all add: Schema_def)
  have ok: "\<forall>kv \<in> set ?fs. \<exists>f. snd kv = Some f \<and> validate f = Inr ()"
    by (simp add: isdecimal_def is_decimal_def isdigit_def is_digit_def startswith_def endswith_def)
  from C5_set_values [THEN conjunct2, THEN mp, OF conjI [OF t conjI [OF n f]]]
  have "(\<forall>kv \<in> set ?fs. \<exists>f. snd kv = Some f \<and> validate f = Inr ()) \<longrightarrow>
      set_values ?s ?vs = Inr (?s\<lparr>sfields := ?fs\<rparr>)"
    by (elim conjE)
  from this ok have "set_values ?s ?vs = Inr (?s\<lparr>sfields := ?fs\<rparr>)"
    by (rule mp)
  then show "set_values ?s ?vs = Inr (Schema ?fs)"
    by (simp add: Schema_def)
qed

text \<open>
  Claim C5 as stated fails for the empty list: \<open>if values:\<close> skips the assignment and
  the validation together, so \<open>set_values\<close> returns normally although the only field,
  never set, does not validate.
\<close>

theorem C5_empty_list_counterexample:
  "set_values (Schema [(''age'', Some (IntType ''age'' PNone))]) []
     = Inr (Schema [(''age'', Some (IntType ''age'' PNone))])
   \<and> schema_validate (Schema [(''age'', Some (IntType ''age'' PNone))])
     = Inl (AssertionError (Value_must_be_an_integer ''age'' PNone))"
  by (simp add: set_values_def schema_validate_def Schema_def)

section \<open>Attribute access on a schema\<close>

text \<open>
  Reading through \<open>__getattr__\<close>: a declared name gives the value of its field, any
  other name fails with \<open>... not found\<close>. Writing through \<open>__setattr__\<close>, for a name that
  is no piece of the word \<open>fields\<close>: a declared name is set through the field's
  \<open>set_value\<close>, any other name is bound on the instance.
\<close>

lemma map_of_dict_set: "map_of (dict_set k v kvs) = (map_of kvs)(k \<mapsto> v)"
  by (induction kvs) (auto simp: fun_eq_iff)

lemma schema_getattr_declared:
  "map_of (sfields sch) key = Some (Some f) \<Longrightarrow> schema_getattr sch key = Inr (val f)"
  by (simp add: schema_getattr_def)

lemma schema_getattr_undeclared:
  "key \<notin> fst ` set (sfields sch) \<Longrightarrow>
   schema_getattr sch key = Inl (AttributeError (Not_found key))"
  by (simp add: schema_getattr_def map_of_eq_None_iff [THEN iffD2])

lemma val_set_value: "val (set_value f v) = v"
  by (cases f) simp_all

lemma schema_setattr_declared:
  assumes "\<not> str_contains key ''fields''" and "map_of (sfields sch) key = Some (Some f)"
  shows "\<exists>sch'. schema_setattr sch key v = Inr (Updated sch')
           \<and> schema_getattr sch' key = Inr v \<and> attrs sch' = attrs sch"
  using assms by (simp add: schema_setattr_def schema_getattr_def map_of_dict_set val_set_value)

lemma schema_setattr_undeclared:
  assumes "key \<notin> fst ` set (sfields sch)" and "key \<noteq> ''fields''"
  shows "schema_setattr sch key v = Inr (Updated (sch\<lparr>attrs := dict_set key v (attrs sch)\<rparr>))"
  using assms
  by (simp add: schema_setattr_def object_setattr_def map_of_eq_None_iff [THEN iffD2])

text \<open>
  Claim C6 at a declared name that is a piece of the word \<open>fields\<close>. The schema has the
  one field \<open>s\<close>. Writing \<open>'5'\<close> to the attribute \<open>s\<close> takes the first branch of
  \<open>__setattr__\<close>: the name is bound on the instance and the field keeps its value
  \<open>None\<close>, where the claim has the field set through \<open>set_value\<close>.
\<close>

theorem C6_setattr_declared_name_in_fields:
  "schema_setattr (Schema [(''s'', Some (IntType ''s'' PNone))]) ''s'' (PStr ''5'')
     = Inr (Updated \<lparr>sfields = [(''s'', Some (IntType ''s'' PNone))],
                     attrs = [(''s'', PStr ''5'')]\<rparr>)"
  by (simp add: schema_setattr_def object_setattr_def Schema_def)

section \<open>Reading and writing integers\<close>

lemma split_not_Nil: "split c s \<noteq> []"
  by (induction s) (auto split: list.splits)

lemma is_decimal_not_space: "is_decimal c \<Longrightarrow> \<not> is_space c"
  by (auto simp: is_decimal_def is_space_def)

lemma is_decimal_not_sign: "is_decimal c \<Longrightarrow> c \<noteq> CHR ''-'' \<and> c \<noteq> CHR ''+''"
  by (auto simp: is_decimal_def)

lemma strip_id:
  assumes "s \<noteq> []" and "\<not> is_space (hd s)" and "\<not> is_space (last s)"
  shows "strip s = s"
proof -
  from assms have 1: "dropWhile is_space s = s" by (cases s) auto
  from assms have "rev s \<noteq> []" "\<not> is_space (hd (rev s))" by (auto simp: hd_rev)
  then have 2: "dropWhile is_space (rev s) = rev s" by (cases "rev s") auto
  show ?thesis by (simp add: strip_def 1 2)
qed

lemma digits_value_foldl:
  "list_all is_decimal ds \<Longrightarrow>
   digits_value acc ds = Some (foldl (\<lambda>a c. 10 * a + digit_val c) acc ds)"
  by (induction ds arbitrary: acc) auto

lemma unsigned_value_digits:
  assumes "isdecimal ds"
  shows "unsigned_value ds = Some (foldl (\<lambda>a c. 10 * a + digit_val c) 0 ds)"
proof -
  from assms obtain c cs where ds: "ds = c # cs" and all: "list_all is_decimal ds"
    by (cases ds) (auto simp: isdecimal_def)
  from ds all have "unsigned_value ds = digits_value 0 ds"
    by (simp add: unsigned_value_def)
  with all show ?thesis by (simp only: digits_value_foldl)
qed

lemma py_int_digits:
  assumes "isdecimal ds"
  shows "py_int ds = Inr (int (foldl (\<lambda>a c. 10 * a + digit_val c) 0 ds))"
proof -
  from assms obtain c cs where ds: "ds = c # cs" and all: "list_all is_decimal ds"
    by (cases ds) (auto simp: isdecimal_def)
  from ds all have c: "is_decimal c" by simp
  from ds all have "is_decimal (last ds)" by (simp add: list_all_iff)
  with ds c have "strip ds = ds"
    by (intro strip_id) (auto dest: is_decimal_not_space)
  moreover have "unsigned_value ds = Some (foldl (\<lambda>a c. 10 * a + digit_val c) 0 ds)"
    using assms by (rule unsigned_value_digits)
  ultimately show ?thesis
    using ds is_decimal_not_sign [OF c] by (simp add: py_int_def)
qed

lemma digit_char_cases:
  assumes "d < 10"
  shows "is_decimal (digit_char d) \<and> digit_val (digit_char d) = d"
proof -
  from assms have "d \<in> {0, 1, 2, 3, 4, 5, 6, 7, 8, 9}" by auto
  then show ?thesis
    by (auto simp: is_decimal_def digit_char_def digit_val_def)
qed

lemma is_decimal_digit_char: "d < 10 \<Longrightarrow> is_decimal (digit_char d)"
  by (simp add: digit_char_cases)

lemma digit_val_digit_char: "d < 10 \<Longrightarrow> digit_val (digit_char d) = d"
  by (simp add: digit_char_cases)

lemma str_nat_digits: "list_all is_decimal (str_nat n) \<and> str_nat n \<noteq> []"
proof (induction n rule: str_nat.induct)
  case (1 n)
  show ?case
  proof (cases "n < 10")
    case True
    then show ?thesis by (subst (1 2) str_nat.simps) (simp add: is_decimal_digit_char)
  next
    case False
    with 1 have "list_all is_decimal (str_nat (n div 10))" by simp
    with False show ?thesis by (subst (1 2) str_nat.simps) (simp add: is_decimal_digit_char)
  qed
qed

lemma foldl_str_nat: "foldl (\<lambda>a c. 10 * a + digit_val c) 0 (str_nat n) = n"
proof (induction n rule: str_nat.induct)
  case (1 n)
  show ?case
  proof (cases "n < 10")
    case True
    then show ?thesis by (subst str_nat.simps) (simp add: digit_val_digit_char)
  next
    case False
    with 1 have "foldl (\<lambda>a c. 10 * a + digit_val c) 0 (str_nat (n div 10)) = n div 10" by simp
    with False show ?thesis by (subst str_nat.simps) (simp add: digit_val_digit_char)
  qed
qed

lemma py_int_str_nat: "py_int (str_nat n) = Inr (int n)"
  using py_int_digits [of "str_nat n"] str_nat_digits [of n]
  by (simp add: isdecimal_def foldl_str_nat)

lemma py_int_py_str: "py_int (py_str i) = Inr i"
proof (cases "i < 0")
  case False
  then show ?thesis by (simp add: py_str_def py_int_str_nat)
next
  case True
  let ?ds = "str_nat (nat (- i))"
  have d: "list_all is_decimal ?ds" "?ds \<noteq> []" using str_nat_digits by auto
  then have "is_decimal (last ?ds)" "is_decimal (hd ?ds)" by (auto simp: list_all_iff)
  then have "strip (CHR ''-'' # ?ds) = CHR ''-'' # ?ds" using d
    by (intro strip_id) (auto dest: is_decimal_not_space simp: is_space_def)
  moreover have "unsigned_value ?ds = Some (nat (- i))"
    using d unsigned_value_digits [of ?ds] by (simp add: isdecimal_def foldl_str_nat)
  ultimately show ?thesis using True by (simp add: py_str_def py_int_def)
qed

section \<open>Building a schema from a template\<close>

lemma item_name: "item (split CHR ''|'' t) 0 = Inr (field_name t)"
  using split_not_Nil [of "CHR ''|''" t]
  by (cases "split CHR ''|'' t") (simp_all add: item_def field_name_def)

lemma unpack_unknown: "unknown_kind t \<Longrightarrow> unpack_type (split CHR ''|'' t) = Inr None"
  by (auto simp: unknown_kind_def unpack_type_def item_def key2type_def split: list.splits)

lemma unpack_valid:
  "valid_spec t \<Longrightarrow> \<exists>f. unpack_type (split CHR ''|'' t) = Inr (Some f) \<and> val f = PNone"
  by (auto simp: valid_spec_def unpack_type_def item_def key2type_def py_int_digits
      split: list.splits)

lemma add_fields_step:
  "unpack_type (split CHR ''|'' t) = Inr r \<Longrightarrow>
   add_fields (t # ts) fs = add_fields ts (dict_set (field_name t) r fs)"
  by (simp add: item_name)

lemma add_fields_ok:
  "\<forall>t \<in> set ts. valid_spec t \<or> unknown_kind t \<Longrightarrow> \<exists>fs'. add_fields ts fs = Inr fs'"
proof (induction ts arbitrary: fs)
  case Nil
  then show ?case by simp
next
  case (Cons t ts)
  then obtain r where "unpack_type (split CHR ''|'' t) = Inr r"
    using unpack_valid [of t] unpack_unknown [of t] by auto
  with Cons show ?case by (simp only: add_fields_step) simp
qed

lemma set_dict_set: "set (dict_set k v fs) \<subseteq> insert (k, v) (set fs)"
  by (induction fs) (auto split: if_splits)

lemma dict_set_typed:
  assumes "\<forall>kv \<in> set fs. P (snd kv)" and "P v"
  shows "\<forall>kv \<in> set (dict_set k v fs). P (snd kv)"
proof
  fix kv assume "kv \<in> set (dict_set k v fs)"
  with set_dict_set [of k v fs] have "kv = (k, v) \<or> kv \<in> set fs" by blast
  with assms show "P (snd kv)" by auto
qed

lemma add_fields_typed:
  "\<forall>t \<in> set ts. valid_spec t \<Longrightarrow> \<forall>kv \<in> set fs. \<exists>f. snd kv = Some f \<and> val f = PNone \<Longrightarrow>
   add_fields ts fs = Inr fs' \<Longrightarrow> \<forall>kv \<in> set fs'. \<exists>f. snd kv = Some f \<and> val f = PNone"
proof (induction ts arbitrary: fs)
  case Nil
  then show ?case by simp
next
  case (Cons t ts)
  then obtain f where u: "unpack_type (split CHR ''|'' t) = Inr (Some f)" "val f = PNone"
    using unpack_valid [of t] by auto
  with Cons.prems have "add_fields ts (dict_set (field_name t) (Some f) fs) = Inr fs'"
    by (simp only: add_fields_step)
  moreover have "\<forall>kv \<in> set (dict_set (field_name t) (Some f) fs). \<exists>g. snd kv = Some g \<and> val g = PNone"
    using Cons.prems(2) u(2) by (intro dict_set_typed) auto
  ultimately show ?case using Cons.IH Cons.prems(1) by auto
qed

lemma dict_set_not_Nil: "dict_set k v fs \<noteq> []"
  by (cases fs) (auto split: if_splits)

lemma add_fields_not_Nil: "add_fields ts fs = Inr fs' \<Longrightarrow> ts \<noteq> [] \<or> fs \<noteq> [] \<Longrightarrow> fs' \<noteq> []"
proof (induction ts arbitrary: fs)
  case Nil
  then show ?case by simp
next
  case (Cons t ts)
  then show ?case
    by (auto simp: item_name dict_set_not_Nil split: sum.splits)
qed

lemma add_fields_append:
  "add_fields (ts @ us) fs =
     (case add_fields ts fs of Inl e \<Rightarrow> Inl e | Inr f \<Rightarrow> add_fields us f)"
  by (induction ts arbitrary: fs) (auto simp: Let_def split: sum.splits)

lemma add_fields_untouched:
  "add_fields us f = Inr r \<Longrightarrow> \<forall>u \<in> set us. field_name u \<noteq> n \<Longrightarrow> map_of r n = map_of f n"
proof (induction us arbitrary: f)
  case Nil
  then show ?case by simp
next
  case (Cons u us)
  then show ?case
    by (auto simp: item_name map_of_dict_set split: sum.splits)
qed

text \<open>
  Claim C9, as the code has it. For a spec whose kind keyword is neither \<open>string\<close> nor
  \<open>int\<close>, \<open>unpack_type\<close> returns \<open>None\<close> without raising. When every spec of the template
  is a valid spec or a spec of unknown kind, \<open>create_schema_instance\<close> returns a schema,
  and in it the name of the unknown-kind spec is bound to \<open>None\<close>, no field type,
  unless a later spec declares the same name again.
\<close>

theorem C9_unknown_kind:
  assumes "unknown_kind t"
  shows "unpack_type (split CHR ''|'' t) = Inr None
    \<and> ((\<forall>u \<in> set (split CHR '' '' tmpl). valid_spec u \<or> unknown_kind u) \<longrightarrow>
        (\<exists>sch. create_schema_instance tmpl = Inr sch
          \<and> (\<forall>pre post. split CHR '' '' tmpl = pre @ t # post
                 \<and> (\<forall>u \<in> set post. field_name u \<noteq> field_name t)
               \<longrightarrow> map_of (sfields sch) (field_name t) = Some None)))"
proof (intro conjI impI)
  show u: "unpack_type (split CHR ''|'' t) = Inr None"
    using assms by (rule unpack_unknown)
  assume "\<forall>u \<in> set (split CHR '' '' tmpl). valid_spec u \<or> unknown_kind u"
  then obtain fs' where fs': "add_fields (split CHR '' '' tmpl) [] = Inr fs'"
    using add_fields_ok by blast
  have "map_of fs' (field_name t) = Some None"
    if sp: "split CHR '' '' tmpl = pre @ t # post"
      and later: "\<forall>u \<in> set post. field_name u \<noteq> field_name t" for pre post
  proof -
    from fs' sp have "(case add_fields pre [] of Inl e \<Rightarrow> Inl e | Inr f \<Rightarrow> add_fields (t # post) f)
        = Inr fs'"
      by (simp only: add_fields_append)
    then obtain f0 where "add_fields (t # post) f0 = Inr fs'"
      by (cases "add_fields pre []") simp_all
    with u have "add_fields post (dict_set (field_name t) None f0) = Inr fs'"
      by (simp only: add_fields_step)
    from add_fields_untouched [OF this later]
    show ?thesis by (simp add: map_of_dict_set)
  qed
  then have "\<forall>pre post. split CHR '' '' tmpl = pre @ t # post
                 \<and> (\<forall>u \<in> set post. field_name u \<noteq> field_name t)
               \<longrightarrow> map_of (sfields (Schema fs')) (field_name t) = Some None"
    by (simp add: Schema_def)
  moreover from fs' have "create_schema_instance tmpl = Inr (Schema fs')"
    by (simp add: create_schema_instance_def)
  ultimately show "\<exists>sch. create_schema_instance tmpl = Inr sch
          \<and> (\<forall>pre post. split CHR '' '' tmpl = pre @ t # post
                 \<and> (\<forall>u \<in> set post. field_name u \<noteq> field_name t)
               \<longrightarrow> map_of (sfields sch) (field_name t) = Some None)"
    by (intro exI [of _ "Schema fs'"] conjI)
qed

theorem C9_unknown_kind_witness:
  "unpack_type (split CHR ''|'' ''a|foo'') = Inr None
   \<and> (\<exists>sch. create_schema_instance ''a|foo b|int'' = Inr sch
          \<and> map_of (sfields sch) ''a'' = Some None)"
proof -
  have k: "unknown_kind ''a|foo''" by (simp add: unknown_kind_def)
  have v: "\<forall>u \<in> set (split CHR '' '' ''a|foo b|int''). valid_spec u \<or> unknown_kind u"
    by (simp add: unknown_kind_def valid_spec_def)
  have s: "split CHR '' '' ''a|foo b|int'' = [] @ ''a|foo'' # [''b|int'']
      \<and> (\<forall>u \<in> set [''b|int'']. field_name u \<noteq> field_name ''a|foo'')"
    by (simp add: field_name_def)
  note r = C9_unknown_kind [OF k, of "''a|foo b|int''"]
  note r1 = r [THEN conjunct1]
  from r [THEN conjunct2, THEN mp, OF v]
  obtain sch where c: "create_schema_instance ''a|foo b|int'' = Inr sch"
    and m: "\<forall>pre post. split CHR '' '' ''a|foo b|int'' = pre @ ''a|foo'' # post
                 \<and> (\<forall>u \<in> set post. field_name u \<noteq> field_name ''a|foo'')
               \<longrightarrow> map_of (sfields sch) (field_name ''a|foo'') = Some None"
    by (elim exE conjE) (rule that)
  from m [rule_format, OF s] have "map_of (sfields sch) ''a'' = Some None"
    by (simp add: field_name_def)
  with r1 c show ?thesis
    by (intro conjI exI [of _ sch])
qed

text \<open>
  Claim C9 as stated fails where another spec of the template is malformed: the
  template below has a spec of unknown kind, and building the schema raises
  \<open>IndexError\<close> at the second spec, which lacks the length of its string.
\<close>

theorem C9_other_spec_counterexample:
  "unknown_kind ''a|foo''
   \<and> split CHR '' '' ''a|foo b|string'' = [''a|foo'', ''b|string'']
   \<and> create_schema_instance ''a|foo b|string'' = Inl IndexError"
  by (simp add: unknown_kind_def create_schema_instance_def unpack_type_def item_def key2type_def)

section \<open>Adding a record and reading it back\<close>

lemma valid_spec_empty: "\<not> valid_spec []"
  by (simp add: valid_spec_def)

lemma create_valid:
  assumes "\<forall>t \<in> set (split CHR '' '' tmpl). valid_spec t"
  shows "\<exists>fs. create_schema_instance tmpl = Inr (Schema fs)
            \<and> (\<forall>kv \<in> set fs. \<exists>f. snd kv = Some f \<and> val f = PNone)"
proof -
  from assms have "\<forall>t \<in> set (split CHR '' '' tmpl). valid_spec t \<or> unknown_kind t" by simp
  then obtain fs where fs: "add_fields (split CHR '' '' tmpl) [] = Inr fs"
    using add_fields_ok by blast
  from add_fields_typed [OF assms _ fs]
  have "\<forall>kv \<in> set fs. \<exists>f. snd kv = Some f \<and> val f = PNone" by simp
  with fs show ?thesis
    by (intro exI [of _ fs]) (simp add: create_schema_instance_def)
qed

lemma deserialize_ok:
  assumes typed: "\<forall>kv \<in> set (sfields sch). snd kv \<noteq> None"
    and len: "length (split CHR '' '' line) = fieldlen sch"
    and pass: "\<forall>kt \<in> set (zip (sfields sch) (split CHR '' '' line)).
                 \<exists>f. snd (fst kt) = Some f \<and> validate (set_value f (PStr (snd kt))) = Inr ()"
  shows "deserialize sch line =
     Inr (sch\<lparr>sfields := map (\<lambda>(kv, tok). (fst kv, map_option (\<lambda>f. set_value f (PStr tok)) (snd kv)))
                              (zip (sfields sch) (split CHR '' '' line))\<rparr>)"
proof -
  let ?toks = "split CHR '' '' line"
  let ?fs' = "map (\<lambda>(kv, tok). (fst kv, map_option (\<lambda>f. set_value f (PStr tok)) (snd kv)))
                  (zip (sfields sch) ?toks)"
  have ne: "map PStr ?toks \<noteq> []" by (simp add: split_not_Nil)
  have "map (\<lambda>((k, v), x). (k, map_option (\<lambda>f. set_value f x) v)) (zip (sfields sch) (map PStr ?toks))
        = ?fs'"
    by (simp add: zip_map2 case_prod_unfold)
  moreover from len have "drop (length (map PStr ?toks)) (sfields sch) = []"
    by (simp add: fieldlen_def)
  ultimately have a: "assign (sfields sch) (map PStr ?toks) = Inr ?fs'"
    using assign_typed [OF typed, of "map PStr ?toks"] by simp
  have "\<forall>kv \<in> set ?fs'. \<exists>f. snd kv = Some f \<and> validate f = Inr ()"
  proof
    fix kv assume "kv \<in> set ?fs'"
    then obtain kt where kt: "kt \<in> set (zip (sfields sch) ?toks)"
      and kv: "kv = (fst (fst kt), map_option (\<lambda>f. set_value f (PStr (snd kt))) (snd (fst kt)))"
      by (auto simp: case_prod_unfold)
    from pass kt obtain f where "snd (fst kt) = Some f"
      "validate (set_value f (PStr (snd kt))) = Inr ()" by blast
    with kv show "\<exists>f. snd kv = Some f \<and> validate f = Inr ()" by simp
  qed
  then have "validate_fields ?fs' = Inr ()" by (simp only: validate_fields_ok)
  with a ne len show ?thesis
    by (simp add: deserialize_def set_values_def build_def schema_validate_def)
qed

lemma load_last:
  "load (ds\<lparr>store := store ds @ [r]\<rparr>) (int (length (store ds @ [r])) - 1) = Inr (Some r)"
  by (simp add: load_def list_getitem_def nth_append)


text \<open>
  Claim C1. Let the current schema be a template in which every field spec is valid.
  Then the schema builds. For a data line that has as many space-separated tokens as
  the schema has fields, each token passing the validation of the field it meets,
  \<open>add\<close> stores a record and returns its index, and \<open>get\<close> with that index (written in
  decimal) returns the same record: its fields are the declared ones, in order, and
  their values are the tokens of the line, as strings.
\<close>

theorem C1_add_get_roundtrip:
  assumes "current_schema p = Some tmpl"
    and "\<forall>t \<in> set (split CHR '' '' tmpl). valid_spec t"
  shows "(\<exists>sch. create_schema_instance tmpl = Inr sch)
     \<and> (create_schema_instance tmpl = Inr sch
         \<and> length (split CHR '' '' line) = fieldlen sch
         \<and> (\<forall>kt \<in> set (zip (sfields sch) (split CHR '' '' line)).
               \<exists>f. snd (fst kt) = Some f \<and> validate (set_value f (PStr (snd kt))) = Inr ())
        \<longrightarrow> (\<exists>i rec p'. add p line = (Inr ([], Some (i, rec)), p')
              \<and> get p' (py_str i) = Inr (Some rec)
              \<and> map fst (sfields rec) = map fst (sfields sch)
              \<and> map (\<lambda>kv. map_option val (snd kv)) (sfields rec)
                  = map (\<lambda>tok. Some (PStr tok)) (split CHR '' '' line)))"
proof (intro conjI impI)
  from create_valid [OF assms(2)] obtain fs where
    c: "create_schema_instance tmpl = Inr (Schema fs)"
    and t: "\<forall>kv \<in> set fs. \<exists>f. snd kv = Some f \<and> val f = PNone"
    by blast
  from c show "\<exists>sch. create_schema_instance tmpl = Inr sch" by blast
  assume h: "create_schema_instance tmpl = Inr sch
         \<and> length (split CHR '' '' line) = fieldlen sch
         \<and> (\<forall>kt \<in> set (zip (sfields sch) (split CHR '' '' line)).
               \<exists>f. snd (fst kt) = Some f \<and> validate (set_value f (PStr (snd kt))) = Inr ())"
  let ?toks = "split CHR '' '' line"
  let ?rec = "sch\<lparr>sfields := map (\<lambda>(kv, tok). (fst kv, map_option (\<lambda>f. set_value f (PStr tok)) (snd kv)))
                              (zip (sfields sch) ?toks)\<rparr>"
  let ?i = "int (length (store (datastore p) @ [?rec])) - 1"
  let ?p' = "p\<lparr>datastore := (datastore p)\<lparr>store := store (datastore p) @ [?rec]\<rparr>\<rparr>"
  from h c have sch: "sch = Schema fs" by simp
  with t have typed: "\<forall>kv \<in> set (sfields sch). snd kv \<noteq> None"
    by (auto simp: Schema_def)
  from h have len: "length ?toks = length (sfields sch)" by (simp add: fieldlen_def)
  from h have d: "deserialize sch line = Inr ?rec"
    by (intro deserialize_ok [OF typed]) simp_all
  from assms have ne: "tmpl \<noteq> []"
    using valid_spec_empty by (cases tmpl) auto
  with assms(1) h d have a: "add p line = (Inr ([], Some (?i, ?rec)), ?p')"
    by (simp add: add_def save_def Let_def)
  have g: "get ?p' (py_str ?i) = Inr (Some ?rec)"
    using load_last [of "datastore p" ?rec] by (simp add: get_def py_int_py_str)
  have n: "map fst (sfields ?rec) = map fst (sfields sch)"
    using len by (intro nth_equalityI) simp_all
  have v: "map (\<lambda>kv. map_option val (snd kv)) (sfields ?rec) = map (\<lambda>tok. Some (PStr tok)) ?toks"
  proof (rule nth_equalityI)
    show "length (map (\<lambda>kv. map_option val (snd kv)) (sfields ?rec))
        = length (map (\<lambda>tok. Some (PStr tok)) ?toks)"
      using len by simp
  next
    fix j assume "j < length (map (\<lambda>kv. map_option val (snd kv)) (sfields ?rec))"
    with len have j: "j < length (sfields sch)" "j < length ?toks" by simp_all
    with typed obtain f where "snd (sfields sch ! j) = Some f"
      using nth_mem [of j "sfields sch"] by fastforce
    with j show "map (\<lambda>kv. map_option val (snd kv)) (sfields ?rec) ! j
        = map (\<lambda>tok. Some (PStr tok)) ?toks ! j"
      by (simp add: val_set_value)
  qed
  from a g n v
  show "\<exists>i rec p'. add p line = (Inr ([], Some (i, rec)), p')
              \<and> get p' (py_str i) = Inr (Some rec)
              \<and> map fst (sfields rec) = map fst (sfields sch)
              \<and> map (\<lambda>kv. map_option val (snd kv)) (sfields rec)
                  = map (\<lambda>tok. Some (PStr tok)) (split CHR '' '' line)"
    by (intro exI [of _ ?i] exI [of _ ?rec] exI [of _ ?p'] conjI)
qed


theorem C1_add_get_roundtrip_witness:
  "\<exists>i rec p'.
      add (set_schema Program ''name|string|9 age|int'') '''Al' 30'' = (Inr ([], Some (i, rec)), p')
      \<and> get p' (py_str i) = Inr (Some rec)
      \<and> map fst (sfields rec) = [''name'', ''age'']
      \<and> map (\<lambda>kv. map_option val (snd kv)) (sfields rec)
          = [Some (PStr [quote, CHR ''A'', CHR ''l'', quote]), Some (PStr ''30'')]"
proof -
  let ?p = "set_schema Program ''name|string|9 age|int''"
  let ?sch = "Schema [(''name'', Some (StringType ''name'' PNone 9)),
                      (''age'', Some (IntType ''age'' PNone))]"
  have cs: "current_schema ?p = Some ''name|string|9 age|int''"
    by (simp add: set_schema_clears)
  have v: "\<forall>t \<in> set (split CHR '' '' ''name|string|9 age|int''). valid_spec t"
    by (simp add: valid_spec_def isdecimal_def is_decimal_def isdigit_def is_digit_def)
  have 9: "py_int ''9'' = Inr 9"
    by (simp add: py_int_def strip_def is_space_def unsigned_value_def is_decimal_def digit_val_def)
  have c: "create_schema_instance ''name|string|9 age|int'' = Inr ?sch"
    by (simp add: create_schema_instance_def unpack_type_def item_def key2type_def 9)
  have toks: "split CHR '' '' '''Al' 30'' = [[quote, CHR ''A'', CHR ''l'', quote], ''30'']"
    by (simp add: quote_def)
  have h: "create_schema_instance ''name|string|9 age|int'' = Inr ?sch
         \<and> length (split CHR '' '' '''Al' 30'') = fieldlen ?sch
         \<and> (\<forall>kt \<in> set (zip (sfields ?sch) (split CHR '' '' '''Al' 30'')).
               \<exists>f. snd (fst kt) = Some f \<and> validate (set_value f (PStr (snd kt))) = Inr ())"
    unfolding toks
    by (simp add: c fieldlen_def Schema_def startswith_def endswith_def isdecimal_def is_decimal_def isdigit_def is_digit_def)
  from C1_add_get_roundtrip [OF cs v, THEN conjunct2, THEN mp, OF h]
  obtain i rec p' where
    r: "add ?p '''Al' 30'' = (Inr ([], Some (i, rec)), p')"
       "get p' (py_str i) = Inr (Some rec)"
       "map fst (sfields rec) = map fst (sfields ?sch)"
       "map (\<lambda>kv. map_option val (snd kv)) (sfields rec)
          = map (\<lambda>tok. Some (PStr tok)) (split CHR '' '' '''Al' 30'')"
    by (elim exE conjE) (rule that)
  from r(3) have n: "map fst (sfields rec) = [''name'', ''age'']"
    by (simp add: Schema_def)
  from r(4) have w: "map (\<lambda>kv. map_option val (snd kv)) (sfields rec)
          = [Some (PStr [quote, CHR ''A'', CHR ''l'', quote]), Some (PStr ''30'')]"
    unfolding toks by simp
  from r(1) r(2) n w show ?thesis
    by (intro exI [of _ i] exI [of _ rec] exI [of _ p'] conjI)
qed

section \<open>Failed adds and the indices of the store\<close>

lemma add_failed_unchanged: "fst (add p d) = Inl e \<Longrightarrow> snd (add p d) = p"
  by (auto simp: add_def save_def Let_def split: sum.splits if_splits)

lemma set_values_validated:
  "set_values sch vs = Inr r \<Longrightarrow> vs \<noteq> [] \<Longrightarrow> schema_validate r = Inr ()"
  by (auto simp: set_values_def build_def split: sum.splits)

lemma deserialize_validated: "deserialize sch d = Inr r \<Longrightarrow> schema_validate r = Inr ()"
  using set_values_validated [of sch "map PStr (split CHR '' '' d)" r] split_not_Nil [of "CHR '' ''" d]
  by (simp add: deserialize_def Let_def split: if_splits)

lemma add_saved:
  assumes "add p d = (Inr (out, Some (i, r)), p')"
  shows "i = int (length (store (datastore p)))
     \<and> store (datastore p') = store (datastore p) @ [r]
     \<and> current_schema p' = current_schema p
     \<and> schema_validate r = Inr ()"
  using assms
  by (auto simp: add_def save_def Let_def deserialize_validated split: sum.splits if_splits)

lemma add_nothing_saved: "add p d = (Inr (out, None), p') \<Longrightarrow> p' = p"
  by (auto simp: add_def save_def Let_def split: sum.splits if_splits)

lemma add_format_error:
  assumes "current_schema p = Some t" and "t \<noteq> []" and "create_schema_instance t = Inr sch"
    and "length (split CHR '' '' d) \<noteq> fieldlen sch"
  shows "add p d = (Inl (AssertionError (Incorrect_number_of_fields (fieldlen sch)
                           (length (split CHR '' '' d)))), p)"
  using assms by (simp add: add_def deserialize_def)

lemma exec_store:
  assumes "\<forall>t. c \<noteq> Set_schema t" and "exec p c = (r, p')"
  shows "store (datastore p') = store (datastore p) @ map snd (saved [r])
     \<and> map fst (saved [r]) = map int [length (store (datastore p)) ..< length (store (datastore p'))]"
proof (cases c)
  case (Set_schema t)
  with assms show ?thesis by simp
next
  case (Get i)
  with assms show ?thesis by (auto split: sum.splits)
next
  case (Add d)
  show ?thesis
  proof (cases "add p d")
    case (Pair x q)
    show ?thesis
    proof (cases x)
      case (Inl e)
      with Pair have "q = p" using add_failed_unchanged [of p d e] by simp
      with Inl Pair Add assms show ?thesis by auto
    next
      case (Inr y)
      obtain out s where y: "y = (out, s)" by (cases y)
      show ?thesis
      proof (cases s)
        case None
        with Inr Pair y have "q = p" using add_nothing_saved [of p d out q] by simp
        with None Inr Pair y Add assms show ?thesis by auto
      next
        case (Some ir)
        obtain i rec where ir: "ir = (i, rec)" by (cases ir)
        with Some Inr Pair y have "add p d = (Inr (out, Some (i, rec)), q)" by simp
        from add_saved [OF this] Some Inr Pair y Add assms ir show ?thesis by auto
      qed
    qed
  qed
qed


lemma saved_Cons: "saved (r # rs) = saved [r] @ saved rs"
proof (cases r)
  case (Added out s)
  then show ?thesis by (cases s) simp_all
qed simp_all

lemma run_store:
  assumes "\<forall>c \<in> set cs. \<forall>t. c \<noteq> Set_schema t"
  shows "store (datastore (snd (run p cs))) = store (datastore p) @ map snd (saved (fst (run p cs)))
     \<and> map fst (saved (fst (run p cs)))
         = map int [length (store (datastore p)) ..< length (store (datastore (snd (run p cs))))]"
  using assms
proof (induction cs arbitrary: p)
  case Nil
  then show ?case by simp
next
  case (Cons c cs)
  obtain r p1 where e: "exec p c = (r, p1)" by (cases "exec p c")
  obtain rs p2 where r: "run p1 cs = (rs, p2)" by (cases "run p1 cs")
  from Cons.prems have c: "\<forall>t. c \<noteq> Set_schema t" by simp
  note s1 = exec_store [OF c e]
  from Cons.IH [of p1] Cons.prems r
  have s2: "store (datastore p2) = store (datastore p1) @ map snd (saved rs)"
    "map fst (saved rs) = map int [length (store (datastore p1)) ..< length (store (datastore p2))]"
    by simp_all
  from s1 s2 have l: "length (store (datastore p)) \<le> length (store (datastore p1))"
    "length (store (datastore p1)) \<le> length (store (datastore p2))" by simp_all
  have run: "run p (c # cs) = (r # rs, p2)" using e r by simp
  have "[length (store (datastore p)) ..< length (store (datastore p2))]
      = [length (store (datastore p)) ..< length (store (datastore p1))]
        @ [length (store (datastore p1)) ..< length (store (datastore p2))]"
    using l by (metis le_Suc_ex upt_add_eq_append)
  with s1 s2 show ?case
    unfolding run by (simp add: saved_Cons [of r rs])
qed

text \<open>
  Claim C4, as the code has it. With a current schema that builds, an \<open>add\<close> whose line
  has another number of tokens than the schema has fields fails with the assertion
  on the number of fields. An \<open>add\<close> that fails, for whatever reason, leaves the
  program as it was. An \<open>add\<close> that stores a record returns the length the store had
  before, appends exactly that record, and the record has passed the validation of
  all its fields. So from a \<open>set-schema\<close> on, over any sequence of \<open>add\<close> and \<open>get\<close>
  commands, the indices returned are \<open>0, 1, 2, ...\<close> in this order, failed adds among
  them or not, and the store holds the records returned, in this order.
\<close>

theorem C4_failed_add_and_indices:
  "(current_schema p = Some t \<and> t \<noteq> [] \<and> create_schema_instance t = Inr sch
      \<and> length (split CHR '' '' d) \<noteq> fieldlen sch
     \<longrightarrow> add p d = (Inl (AssertionError (Incorrect_number_of_fields (fieldlen sch)
                              (length (split CHR '' '' d)))), p))
   \<and> (fst (add p d) = Inl e \<longrightarrow> snd (add p d) = p)
   \<and> (add p d = (Inr (out, Some (i, r)), p')
     \<longrightarrow> i = int (length (store (datastore p)))
         \<and> store (datastore p') = store (datastore p) @ [r]
         \<and> schema_validate r = Inr ())
   \<and> ((\<forall>c \<in> set cs. \<forall>t. c \<noteq> Set_schema t)
     \<longrightarrow> map fst (saved (fst (run (set_schema q s) cs)))
           = map int [0 ..< length (store (datastore (snd (run (set_schema q s) cs))))]
         \<and> map snd (saved (fst (run (set_schema q s) cs)))
           = store (datastore (snd (run (set_schema q s) cs))))"
proof (intro conjI impI)
  assume "current_schema p = Some t \<and> t \<noteq> [] \<and> create_schema_instance t = Inr sch
      \<and> length (split CHR '' '' d) \<noteq> fieldlen sch"
  then have "current_schema p = Some t" "t \<noteq> []" "create_schema_instance t = Inr sch"
    "length (split CHR '' '' d) \<noteq> fieldlen sch" by simp_all
  then show "add p d = (Inl (AssertionError (Incorrect_number_of_fields (fieldlen sch)
                              (length (split CHR '' '' d)))), p)"
    by (rule add_format_error)
next
  assume "fst (add p d) = Inl e"
  then show "snd (add p d) = p" by (rule add_failed_unchanged)
next
  assume a: "add p d = (Inr (out, Some (i, r)), p')"
  from add_saved [OF a] show "i = int (length (store (datastore p)))"
    and "store (datastore p') = store (datastore p) @ [r]"
    and "schema_validate r = Inr ()" by simp_all
next
  assume n: "\<forall>c \<in> set cs. \<forall>t. c \<noteq> Set_schema t"
  from run_store [OF n, of "set_schema q s"]
  show "map fst (saved (fst (run (set_schema q s) cs)))
           = map int [0 ..< length (store (datastore (snd (run (set_schema q s) cs))))]"
    and "map snd (saved (fst (run (set_schema q s) cs)))
           = store (datastore (snd (run (set_schema q s) cs)))"
    by (simp_all add: set_schema_clears)
qed


theorem C4_failed_add_and_indices_witness:
  "add (set_schema Program ''a|int'') ''1 2''
     = (Inl (AssertionError (Incorrect_number_of_fields 1 2)), set_schema Program ''a|int'')
   \<and> map fst (saved (fst (run (set_schema Program ''a|int'')
                   [Add ''1'', Add ''x'', Get ''0'', Add ''2 3'', Add ''2'']))) = [0, 1]"
proof
  let ?p = "set_schema Program ''a|int''"
  let ?sch = "Schema [(''a'', Some (IntType ''a'' PNone))]"
  have c: "create_schema_instance ''a|int'' = Inr ?sch"
    by (simp add: create_schema_instance_def unpack_type_def item_def key2type_def)
  have h: "current_schema ?p = Some ''a|int'' \<and> ''a|int'' \<noteq> []
      \<and> create_schema_instance ''a|int'' = Inr ?sch
      \<and> length (split CHR '' '' ''1 2'') \<noteq> fieldlen ?sch"
    by (simp add: c set_schema_clears fieldlen_def Schema_def)
  from C4_failed_add_and_indices [THEN conjunct1, THEN mp, OF h]
  show "add ?p ''1 2''
     = (Inl (AssertionError (Incorrect_number_of_fields 1 2)), ?p)"
    by (simp add: fieldlen_def Schema_def)
next
  let ?cs = "[Add ''1'', Add ''x'', Get ''0'', Add ''2 3'', Add ''2'']"
  have n: "\<forall>c \<in> set ?cs. \<forall>t. c \<noteq> Set_schema t" by simp
  have l: "length (store (datastore (snd (run (set_schema Program ''a|int'') ?cs)))) = 2"
    by code_simp
  from C4_failed_add_and_indices [THEN conjunct2, THEN conjunct2, THEN conjunct2, THEN mp, OF n,
      THEN conjunct1, of Program "''a|int''"]
  have "map fst (saved (fst (run (set_schema Program ''a|int'') ?cs)))
      = map int [0 ..< length (store (datastore (snd (run (set_schema Program ''a|int'') ?cs))))]" .
  also have "\<dots> = map int [0 ..< 2]" by (simp only: l)
  also have "\<dots> = [0, 1]" by (simp add: upt_rec)
  finally show "map fst (saved (fst (run (set_schema Program ''a|int'') ?cs))) = [0, 1]" .
qed

text \<open>
  Claim C4 as stated fails over a sequence with a second \<open>set-schema\<close>: \<open>clear\<close> empties the
  store, and the next record is stored under the index \<open>0\<close> again.
\<close>

theorem C4_set_schema_restarts_counterexample:
  "map fst (saved (fst (run Program
      [Set_schema ''a|int'', Add ''1'', Add ''2'', Set_schema ''a|int'', Add ''3''])))
   = [0, 1, 0]"
  by code_simp

end
